theory Spec2Isabelle
  imports Complex_Main "HOL-Library.Sublist" "HOL-Library.Multiset" "HOL-Library.Product_Lexorder"
    "HOL-Library.Char_ord" "HOL-Library.List_Lexorder"
begin

section \<open>ReserveMap: filtering, city index, city search and data conversion\<close>

text \<open>
  A shallow embedding of the algorithmic parts of the ReserveMap site:
  \<^item> \<^verbatim>\<open>src/components/Map.jsx\<close>: the marker filter of the "update markers" effect;
  \<^item> \<^verbatim>\<open>src/pages/Home.jsx\<close>: the filter state and its two toggles, the restaurant
    count of the filter bar, the city index (\<^verbatim>\<open>cities\<close>) and the city search
    (\<^verbatim>\<open>filteredCities\<close>);
  \<^item> \<^verbatim>\<open>scripts/convert-data.js\<close>: the record filters that decide which rows of the
    CSV files reach \<^verbatim>\<open>restaurants.json\<close>, and the writing of that file, which
    \<^verbatim>\<open>Home.jsx\<close> loads.

  A JavaScript string is modelled as a \<open>string\<close>: the list of the bytes of its UTF-8
  encoding, which for an ASCII string is the list of its characters. The code compares
  strings for equality, prefix and containment, which on well-formed strings are the
  equality, prefix and containment of the encodings, and passes them to the built-in
  functions \<^verbatim>\<open>String.prototype.toLowerCase\<close> and \<^verbatim>\<open>String.prototype.trim\<close>. The
  built-ins are not part of the sources: they are parameters of the model, and every
  theorem about the city search holds for every case mapping and every trimming function.
  A string field that is missing, \<^verbatim>\<open>undefined\<close>, \<^verbatim>\<open>null\<close> or empty is the empty
  string where the code only tests the field for truthiness.
\<close>

subsection \<open>Data model\<close>

text \<open>
  The value of a numeric field: a JavaScript number (\<^verbatim>\<open>NaN\<close>, one of the two
  infinities or a finite value) or \<^verbatim>\<open>null\<close>, which is what a data file holds in
  the place of a number that is not finite. Every finite double is a real, so a statement
  about all \<open>Num x\<close> covers all finite doubles.
\<close>

datatype jsnum = NaN | NegInfinity | Num real | PosInfinity | Null

text \<open>
  \<^verbatim>\<open>isNaN(n)\<close> (\<^verbatim>\<open>isNaN(null)\<close> is false: \<^verbatim>\<open>null\<close> converts to zero) and the
  truthiness of a value (\<^verbatim>\<open>NaN\<close>, zero and \<^verbatim>\<open>null\<close> are falsy).
\<close>

fun isNaN :: "jsnum \<Rightarrow> bool" where
  "isNaN NaN = True"
| "isNaN _ = False"

fun truthyNum :: "jsnum \<Rightarrow> bool" where
  "truthyNum NaN = False"
| "truthyNum Null = False"
| "truthyNum (Num x) = (x \<noteq> 0)"
| "truthyNum _ = True"

text \<open>
  The objects of the program are plain JavaScript objects. A restaurant record and a city
  aggregate share the fields \<^verbatim>\<open>name\<close>, \<^verbatim>\<open>lat\<close>, \<^verbatim>\<open>lon\<close> and \<^verbatim>\<open>state\<close>, which
  the city index copies from the one to the other.
\<close>

record located =
  name :: string
  lat :: jsnum
  lon :: jsnum
  state :: "string option"

record restaurant = located +
  address :: string
  city :: string
  website :: string
  program :: string

record city_aggregate = located +
  count :: int

text \<open>
  The filter state of \<^verbatim>\<open>Home.jsx\<close>:
  \<^verbatim>\<open>useState({ amex: true, chase: true })\<close>. It always has exactly these two boolean
  entries: the only updates are the two toggles below.
\<close>

record filters =
  amex :: bool
  chase :: bool

definition initialFilters :: filters where
  "initialFilters = \<lparr>amex = True, chase = True\<rparr>"

subsection \<open>Filter state: the program toggles (Home.jsx, lines 163-189)\<close>

text \<open>
  \<^verbatim>\<open>setFilters(f => ({ ...f, amex: !f.amex }))\<close> and
  \<^verbatim>\<open>setFilters(f => ({ ...f, chase: !f.chase }))\<close>: the updaters of the two program
  buttons, which are all the updates of the filter state in the program. No function of
  the program takes a program identifier.
\<close>

definition toggleAmex :: "filters \<Rightarrow> filters" where
  "toggleAmex f = f\<lparr>amex := \<not> amex f\<rparr>"

definition toggleChase :: "filters \<Rightarrow> filters" where
  "toggleChase f = f\<lparr>chase := \<not> chase f\<rparr>"

text \<open>
  The entry of the filter state for a program identifier: \<^verbatim>\<open>filters[p]\<close>, which is
  \<^verbatim>\<open>undefined\<close> (\<open>None\<close>) for every identifier but the two.
\<close>

definition filterEntry :: "filters \<Rightarrow> string \<Rightarrow> bool option" where
  "filterEntry f p =
     (if p = ''amex'' then Some (amex f)
      else if p = ''chase'' then Some (chase f)
      else None)"

subsection \<open>The marker filter (Map.jsx, lines 138-143) and the count (Home.jsx, lines 193-198)\<close>

text \<open>
  \<^verbatim>\<open>
  const filtered = restaurants.filter(r => {
    if (r.program === 'amex' && !filters.amex) return false
    if (r.program === 'chase' && !filters.chase) return false
    return true
  })
  \<close>
\<close>

definition markerVisible :: "filters \<Rightarrow> restaurant \<Rightarrow> bool" where
  "markerVisible f r =
     (if program r = ''amex'' \<and> \<not> amex f then False
      else if program r = ''chase'' \<and> \<not> chase f then False
      else True)"

definition filtered :: "restaurant list \<Rightarrow> filters \<Rightarrow> restaurant list" where
  "filtered restaurants f = filter (markerVisible f) restaurants"

text \<open>
  One marker per filtered restaurant, in order (\<^verbatim>\<open>filtered.map(restaurant => L.marker(...))\<close>);
  a marker is identified with the position it is placed at and the restaurant whose popup
  it carries.
\<close>

definition markers :: "restaurant list \<Rightarrow> filters \<Rightarrow> ((jsnum \<times> jsnum) \<times> restaurant) list" where
  "markers restaurants f = map (\<lambda>r. ((lat r, lon r), r)) (filtered restaurants f)"

text \<open>
  \<^verbatim>\<open>
  restaurants.filter(r =>
    (r.program === 'amex' && filters.amex) ||
    (r.program === 'chase' && filters.chase)
  ).length
  \<close>
\<close>

definition counted :: "filters \<Rightarrow> restaurant \<Rightarrow> bool" where
  "counted f r =
     ((program r = ''amex'' \<and> amex f) \<or> (program r = ''chase'' \<and> chase f))"

definition restaurantCount :: "restaurant list \<Rightarrow> filters \<Rightarrow> nat" where
  "restaurantCount restaurants f = length (filter (counted f) restaurants)"

subsection \<open>Strings\<close>

text \<open>\<^verbatim>\<open>s.startsWith(q)\<close> and \<^verbatim>\<open>s.includes(q)\<close> (\<open>includes_str\<close>).\<close>

definition startsWith :: "string \<Rightarrow> string \<Rightarrow> bool" where
  "startsWith s q = (take (length q) s = q)"

fun includes_str :: "string \<Rightarrow> string \<Rightarrow> bool" where
  "includes_str [] q = (q = [])"
| "includes_str (c # cs) q = (startsWith (c # cs) q \<or> includes_str cs q)"

subsection \<open>Array.prototype.sort with a comparator\<close>

text \<open>
  \<^verbatim>\<open>xs.sort(cmp)\<close> is a stable sort: an element goes before another when \<open>cmp\<close> is
  negative on them, after it when \<open>cmp\<close> is positive, and elements that compare equal
  keep their order. For a comparator that is consistent (both comparators of the program
  are: they compare a key) the result does not depend on the algorithm; the model is the
  stable insertion sort.
\<close>

fun insertSorted :: "('a \<Rightarrow> 'a \<Rightarrow> int) \<Rightarrow> 'a \<Rightarrow> 'a list \<Rightarrow> 'a list" where
  "insertSorted cmp x [] = [x]"
| "insertSorted cmp x (y # ys) =
     (if cmp x y \<le> 0 then x # y # ys else y # insertSorted cmp x ys)"

fun jsSort :: "('a \<Rightarrow> 'a \<Rightarrow> int) \<Rightarrow> 'a list \<Rightarrow> 'a list" where
  "jsSort cmp [] = []"
| "jsSort cmp (x # xs) = insertSorted cmp x (jsSort cmp xs)"

subsection \<open>The city index (Home.jsx, lines 43-55)\<close>

text \<open>
  \<^verbatim>\<open>
  const cityMap = {}
  restaurants.forEach(r => {
    const city = r.city
    if (city) {
      if (!cityMap[city]) {
        cityMap[city] = { name: city, count: 0, lat: r.lat, lon: r.lon, state: r.state }
      }
      cityMap[city].count++
    }
  })
  return Object.values(cityMap).sort((a, b) => b.count - a.count)
  \<close>
  \<open>cityMap\<close> is a plain object. Its own properties are kept in the order of their
  creation. A read \<^verbatim>\<open>cityMap[city]\<close> also finds the properties every object inherits
  from \<^verbatim>\<open>Object.prototype\<close>, which are all truthy: for such a city name no own
  property is ever created, and the increment lands on the inherited object.
\<close>

type_synonym city_map = "(string \<times> city_aggregate) list"

definition objectPrototypeKeys :: "string list" where
  "objectPrototypeKeys =
     [''constructor'', ''__defineGetter__'', ''__defineSetter__'', ''hasOwnProperty'',
      ''__lookupGetter__'', ''__lookupSetter__'', ''isPrototypeOf'', ''propertyIsEnumerable'',
      ''toString'', ''valueOf'', ''__proto__'', ''toLocaleString'']"

definition hasProperty :: "city_map \<Rightarrow> string \<Rightarrow> bool" where
  "hasProperty cityMap key = (map_of cityMap key \<noteq> None \<or> key \<in> set objectPrototypeKeys)"

definition increment :: "string \<Rightarrow> city_map \<Rightarrow> city_map" where
  "increment key cityMap =
     map (\<lambda>(k, a). if k = key then (k, a\<lparr>count := count a + 1\<rparr>) else (k, a)) cityMap"

definition addRestaurant :: "city_map \<Rightarrow> restaurant \<Rightarrow> city_map" where
  "addRestaurant cityMap r =
     (if city r = [] then cityMap
      else increment (city r)
        (if \<not> hasProperty cityMap (city r)
         then cityMap @
           [(city r, \<lparr>name = city r, lat = lat r, lon = lon r, state = state r, count = 0\<rparr>)]
         else cityMap))"

text \<open>
  \<^verbatim>\<open>Object.values\<close> lists the own properties: first those whose key is an array index
  (a canonical decimal numeral below \<open>2^32 - 1\<close>), by ascending index, then the others in
  the order of their creation.
\<close>

definition decimalValue :: "string \<Rightarrow> int" where
  "decimalValue s = foldl (\<lambda>n c. 10 * n + (of_char c - 48)) 0 s"

definition isDigit :: "char \<Rightarrow> bool" where
  "isDigit c = (c \<in> set ''0123456789'')"

definition isArrayIndex :: "string \<Rightarrow> bool" where
  "isArrayIndex s =
     (s \<noteq> [] \<and> list_all isDigit s \<and> (s = ''0'' \<or> hd s \<noteq> CHR ''0'')
      \<and> decimalValue s < 4294967295)"

definition objectValues :: "(string \<times> 'a) list \<Rightarrow> 'a list" where
  "objectValues obj =
     map snd (sort_key (\<lambda>(k, v). decimalValue k) (filter (\<lambda>(k, v). isArrayIndex k) obj)
              @ filter (\<lambda>(k, v). \<not> isArrayIndex k) obj)"

definition cityMapOf :: "restaurant list \<Rightarrow> city_map" where
  "cityMapOf restaurants = foldl addRestaurant [] restaurants"

definition cities :: "restaurant list \<Rightarrow> city_aggregate list" where
  "cities restaurants = jsSort (\<lambda>a b. count b - count a) (objectValues (cityMapOf restaurants))"

subsection \<open>The city search (Home.jsx, lines 58-77)\<close>

text \<open>
  \<^verbatim>\<open>
  if (!searchQuery.trim()) return cities.slice(0, 15)
  const query = searchQuery.toLowerCase()
  const matches = cities.filter(c => c.name.toLowerCase().includes(query))
  matches.sort((a, b) => {
    const aName = a.name.toLowerCase()
    const bName = b.name.toLowerCase()
    const aExact = aName === query
    const bExact = bName === query
    const aStarts = aName.startsWith(query)
    const bStarts = bName.startsWith(query)
    if (aExact && !bExact) return -1
    if (bExact && !aExact) return 1
    if (aStarts && !bStarts) return -1
    if (bStarts && !aStarts) return 1
    return b.count - a.count
  })
  return matches.slice(0, 20)
  \<close>
\<close>

text \<open>
  The parameter \<open>toLowerCase\<close> stands for the built-in \<^verbatim>\<open>s.toLowerCase()\<close>, the
  parameter \<open>trim\<close> for the built-in \<^verbatim>\<open>s.trim()\<close>.
\<close>

definition cityCompare ::
  "(string \<Rightarrow> string) \<Rightarrow> string \<Rightarrow> city_aggregate \<Rightarrow> city_aggregate \<Rightarrow> int" where
  "cityCompare toLowerCase query a b =
     (let aName = toLowerCase (name a);
          bName = toLowerCase (name b);
          aExact = (aName = query);
          bExact = (bName = query);
          aStarts = startsWith aName query;
          bStarts = startsWith bName query
      in if aExact \<and> \<not> bExact then - 1
         else if bExact \<and> \<not> aExact then 1
         else if aStarts \<and> \<not> bStarts then - 1
         else if bStarts \<and> \<not> aStarts then 1
         else count b - count a)"

definition matches ::
  "(string \<Rightarrow> string) \<Rightarrow> city_aggregate list \<Rightarrow> string \<Rightarrow> city_aggregate list" where
  "matches toLowerCase cs query = filter (\<lambda>c. includes_str (toLowerCase (name c)) query) cs"

definition rankedMatches ::
  "(string \<Rightarrow> string) \<Rightarrow> city_aggregate list \<Rightarrow> string \<Rightarrow> city_aggregate list" where
  "rankedMatches toLowerCase cs query =
     jsSort (cityCompare toLowerCase query) (matches toLowerCase cs query)"

definition filteredCities ::
  "(string \<Rightarrow> string) \<Rightarrow> (string \<Rightarrow> string) \<Rightarrow> city_aggregate list \<Rightarrow> string
   \<Rightarrow> city_aggregate list" where
  "filteredCities toLowerCase trim cs searchQuery =
     (if trim searchQuery = [] then take 15 cs
      else take 20 (rankedMatches toLowerCase cs (toLowerCase searchQuery)))"

subsection \<open>The record filters of the data conversion (convert-data.js, lines 55-84)\<close>

text \<open>
  \<^verbatim>\<open>
  const chaseData = parseCSV(chaseContent).map(row => ({
    name: row.name || row.google_name, ...,
    lat: parseFloat(row.lat), lon: parseFloat(row.lon), program: 'chase'
  })).filter(r => r.lat && r.lon && !isNaN(r.lat) && !isNaN(r.lon) && r.name);

  const gdaData = parseCSV(gdaContent).map(row => ({
    name: row.name || row.google_name, ...,
    lat: parseFloat(row.lat), lon: parseFloat(row.lon), program: 'amex'
  })).filter(r => r.lat && r.lon && !isNaN(r.lat) && !isNaN(r.lon));

  const allData = [...chaseData, ...gdaData];
  \<close>
  A row is taken after its fields are read: \<open>name\<close> is the value of
  \<^verbatim>\<open>row.name || row.google_name\<close> (empty when it is falsy), \<open>lat\<close> and \<open>lon\<close> are the
  values \<^verbatim>\<open>parseFloat\<close> returned. The conversion sets the program and filters.
\<close>

definition chaseKeep :: "restaurant \<Rightarrow> bool" where
  "chaseKeep r =
     (truthyNum (lat r) \<and> truthyNum (lon r) \<and> \<not> isNaN (lat r) \<and> \<not> isNaN (lon r)
      \<and> name r \<noteq> [])"

definition gdaKeep :: "restaurant \<Rightarrow> bool" where
  "gdaKeep r =
     (truthyNum (lat r) \<and> truthyNum (lon r) \<and> \<not> isNaN (lat r) \<and> \<not> isNaN (lon r))"

definition chaseData :: "restaurant list \<Rightarrow> restaurant list" where
  "chaseData rows = filter chaseKeep (map (\<lambda>row. row\<lparr>program := ''chase''\<rparr>) rows)"

definition gdaData :: "restaurant list \<Rightarrow> restaurant list" where
  "gdaData rows = filter gdaKeep (map (\<lambda>row. row\<lparr>program := ''amex''\<rparr>) rows)"

definition allData :: "restaurant list \<Rightarrow> restaurant list \<Rightarrow> restaurant list" where
  "allData chaseRows gdaRows = chaseData chaseRows @ gdaData gdaRows"

subsection \<open>The data file and the load (convert-data.js, lines 97-100; Home.jsx, lines 17-29)\<close>

text \<open>
  \<^verbatim>\<open>
  fs.writeFileSync(path.join(__dirname, '../public/data/restaurants.json'),
    JSON.stringify(allData, null, 2));
  \<close>
  \<^verbatim>\<open>JSON.stringify\<close> writes a finite number as a numeral that reads back as the same
  number, and \<^verbatim>\<open>NaN\<close> and the infinities as \<^verbatim>\<open>null\<close>. \<open>restaurantsJson\<close> is the
  content of the file as \<^verbatim>\<open>JSON.parse\<close> reads it.
\<close>

fun jsonNumber :: "jsnum \<Rightarrow> jsnum" where
  "jsonNumber (Num x) = Num x"
| "jsonNumber _ = Null"

definition jsonRecord :: "restaurant \<Rightarrow> restaurant" where
  "jsonRecord r = r\<lparr>lat := jsonNumber (lat r), lon := jsonNumber (lon r)\<rparr>"

definition restaurantsJson :: "restaurant list \<Rightarrow> restaurant list \<Rightarrow> restaurant list" where
  "restaurantsJson chaseRows gdaRows = map jsonRecord (allData chaseRows gdaRows)"

text \<open>
  \<^verbatim>\<open>
  const [restaurants, setRestaurants] = useState([])
  fetch('/data/restaurants.json')
    .then(res => res.json())
    .then(data => { setRestaurants(data); setLoading(false) })
    .catch(err => { console.error('Failed to load restaurants:', err); setLoading(false) })
  \<close>
  The data is stored as it is read, without a check; when the request or the parse fails
  (\<open>None\<close>) the list stays empty. \<open>pointStore\<close> is the list of restaurants of the
  page after the file written by the conversion is loaded.
\<close>

fun loadRestaurants :: "restaurant list option \<Rightarrow> restaurant list" where
  "loadRestaurants None = []"
| "loadRestaurants (Some data) = data"

definition pointStore :: "restaurant list \<Rightarrow> restaurant list \<Rightarrow> restaurant list" where
  "pointStore chaseRows gdaRows = loadRestaurants (Some (restaurantsJson chaseRows gdaRows))"

subsection \<open>The built-ins on ASCII strings\<close>

text \<open>
  For the examples, which use ASCII strings only: what the built-ins compute on ASCII
  strings. On an ASCII string \<^verbatim>\<open>toLowerCase\<close> maps the letters A to Z to a to z and
  nothing else, and \<^verbatim>\<open>trim\<close> removes tab, line feed, vertical tab, form feed,
  carriage return and space from both ends. On other strings the built-ins do more (other
  letters, other white space such as the no-break space); the two functions below are
  not models of the built-ins there and are applied to ASCII strings only.
\<close>

definition asciiLowerTable :: "(char \<times> char) list" where
  "asciiLowerTable = zip ''ABCDEFGHIJKLMNOPQRSTUVWXYZ'' ''abcdefghijklmnopqrstuvwxyz''"

definition asciiToLowerCase :: "string \<Rightarrow> string" where
  "asciiToLowerCase s = map (\<lambda>c. case map_of asciiLowerTable c of Some l \<Rightarrow> l | None \<Rightarrow> c) s"

definition asciiWhiteSpace :: "char \<Rightarrow> bool" where
  "asciiWhiteSpace c = (c \<in> set [CHR 0x09, CHR 0x0A, CHR 0x0B, CHR 0x0C, CHR 0x0D, CHR 0x20])"

definition asciiTrim :: "string \<Rightarrow> string" where
  "asciiTrim s = rev (dropWhile asciiWhiteSpace (rev (dropWhile asciiWhiteSpace s)))"

subsection \<open>Notions of the specification\<close>





text \<open>
  The visibility of a program as the data model of the specification words it: the flag of
  the program's entry, and visible when the filter state has no entry for the program.
\<close>

definition programVisible :: "filters \<Rightarrow> string \<Rightarrow> bool" where
  "programVisible f p = (case filterEntry f p of Some b \<Rightarrow> b | None \<Rightarrow> True)"

text \<open>
  The elements of a list in the order of their first appearance, each once.
\<close>

definition firstSeen :: "'a list \<Rightarrow> 'a list" where
  "firstSeen xs = rev (remdups (rev xs))"

text \<open>
  The distinct non-empty city values of a list of restaurants, in the order of their first
  appearance, and the number of restaurants of a city.
\<close>

definition cityNames :: "restaurant list \<Rightarrow> string list" where
  "cityNames rs = firstSeen (filter (\<lambda>c. c \<noteq> []) (map city rs))"

definition cityOccurrences :: "restaurant list \<Rightarrow> string \<Rightarrow> int" where
  "cityOccurrences rs c = int (length (filter (\<lambda>r. city r = c) rs))"

text \<open>
  A city value that becomes an own property of \<open>cityMap\<close>: not empty and not the name
  of an inherited property.
\<close>

definition keyed :: "string \<Rightarrow> bool" where
  "keyed c = (c \<noteq> [] \<and> c \<notin> set objectPrototypeKeys)"

text \<open>
  A restaurant whose city value is an ordinary property name: neither the name of an
  inherited property nor an array index.
\<close>

definition ordinaryCity :: "restaurant \<Rightarrow> bool" where
  "ordinaryCity r = (city r \<notin> set objectPrototypeKeys \<and> \<not> isArrayIndex (city r))"

text \<open>
  The order the specification asks of the city index: descending count, and ascending
  name (the lexicographic order of the characters) among equal counts.
\<close>

definition countThenName :: "city_aggregate \<Rightarrow> city_aggregate \<Rightarrow> bool" where
  "countThenName a b = (count b < count a \<or> (count b = count a \<and> name a \<le> name b))"

text \<open>
  The ranking of the specification: tier 0 for a name that equals the query without regard
  to case, tier 1 for a name the query is a proper prefix of, tier 2 otherwise; a city is
  ranked before another when its tier is lower, or the tiers are equal and its count is
  at least the other's.
\<close>

definition matchTier :: "(string \<Rightarrow> string) \<Rightarrow> string \<Rightarrow> city_aggregate \<Rightarrow> nat" where
  "matchTier toLowerCase query c =
     (if toLowerCase (name c) = query then 0
      else if prefix query (toLowerCase (name c)) then 1
      else 2)"

definition rankKey :: "(string \<Rightarrow> string) \<Rightarrow> string \<Rightarrow> city_aggregate \<Rightarrow> nat \<times> int" where
  "rankKey toLowerCase query c = (matchTier toLowerCase query c, - count c)"

definition rankedBefore ::
  "(string \<Rightarrow> string) \<Rightarrow> string \<Rightarrow> city_aggregate \<Rightarrow> city_aggregate \<Rightarrow> bool" where
  "rankedBefore toLowerCase query a b =
     (matchTier toLowerCase query a < matchTier toLowerCase query b
      \<or> (matchTier toLowerCase query a = matchTier toLowerCase query b \<and> count b \<le> count a))"

text \<open>A city aggregate for the examples.\<close>

definition sampleCity :: "string \<Rightarrow> int \<Rightarrow> city_aggregate" where
  "sampleCity n k = \<lparr>name = n, lat = Num 40, lon = Num (- 74), state = None, count = k\<rparr>"

text \<open>
  Lists for the examples: \<open>n\<close> restaurants in \<open>n\<close> cities, and \<open>n\<close> city aggregates,
  named a, aa, aaa and so on.
\<close>

definition sampleNames :: "nat \<Rightarrow> string list" where
  "sampleNames n = map (\<lambda>k. replicate (Suc k) (CHR ''a'')) [0..<n]"

definition sampleRestaurants :: "nat \<Rightarrow> restaurant list" where
  "sampleRestaurants n =
     map (\<lambda>c. \<lparr>name = ''R'', lat = Num 40, lon = Num (- 74), state = None,
                address = [], city = c, website = [], program = ''amex''\<rparr>) (sampleNames n)"

definition sampleIndex :: "nat \<Rightarrow> city_aggregate list" where
  "sampleIndex n =
     map (\<lambda>c. \<lparr>name = c, lat = Num 40, lon = Num (- 74), state = None, count = 1\<rparr>)
       (sampleNames n)"

text \<open>A restaurant record for the examples.\<close>

definition sampleRestaurant :: "string \<Rightarrow> string \<Rightarrow> string \<Rightarrow> restaurant" where
  "sampleRestaurant n c p =
     \<lparr>name = n, lat = Num 40, lon = Num (- 74), state = None,
      address = [], city = c, website = [], program = p\<rparr>"

section \<open>Properties\<close>

subsection \<open>Filtering\<close>

lemma markerVisible_iff: "markerVisible f r \<longleftrightarrow> filterEntry f (program r) \<noteq> Some False"
  by (simp add: markerVisible_def filterEntry_def)

lemma markerVisible_programVisible: "markerVisible f r = programVisible f (program r)"
  by (simp add: markerVisible_def programVisible_def filterEntry_def)

text \<open>
  Claim C1. For every list of restaurants and every filter state, the filtered list is a
  subsequence of the restaurants in their order; it is the restaurants whose program is
  visible (its flag is on, a program without a flag counting as on); and a restaurant of
  the list is left out exactly when the filter state maps its program to false.
\<close>

theorem filtered_subseq_exact:
  "subseq (filtered rs f) rs
   \<and> filtered rs f = filter (\<lambda>r. programVisible f (program r)) rs
   \<and> set rs - set (filtered rs f) = {r \<in> set rs. filterEntry f (program r) = Some False}"
proof -
  have "subseq (filtered rs f) rs"
    by (simp add: filtered_def)
  moreover have "filtered rs f = filter (\<lambda>r. programVisible f (program r)) rs"
    unfolding filtered_def by (rule filter_cong) (simp_all add: markerVisible_programVisible)
  moreover have "set rs - set (filtered rs f) = {r \<in> set rs. filterEntry f (program r) = Some False}"
    by (auto simp: filtered_def markerVisible_iff)
  ultimately show ?thesis by blast
qed

theorem filtered_subseq_exact_witness:
  "filtered [sampleRestaurant ''A'' ''New York'' ''amex'',
             sampleRestaurant ''B'' ''Los Angeles'' ''chase'']
            \<lparr>amex = True, chase = False\<rparr>
   = [sampleRestaurant ''A'' ''New York'' ''amex'']"
  using filtered_subseq_exact
    [of "[sampleRestaurant ''A'' ''New York'' ''amex'',
          sampleRestaurant ''B'' ''Los Angeles'' ''chase'']"
        "\<lparr>amex = True, chase = False\<rparr>"]
  by (simp add: programVisible_def filterEntry_def sampleRestaurant_def)

text \<open>
  The markers handed to the cluster group are the filtered restaurants, one marker each, in
  order. What the cluster group makes of them is decided inside the clustering widget.
\<close>

lemma markers_one_per_filtered:
  "map snd (markers rs f) = filtered rs f \<and> length (markers rs f) = length (filtered rs f)"
  by (simp add: markers_def comp_def)

subsection \<open>Sorting\<close>

lemma mset_insertSorted: "mset (insertSorted cmp x ys) = add_mset x (mset ys)"
  by (induction ys) auto

lemma mset_jsSort: "mset (jsSort cmp xs) = mset xs"
  by (induction xs) (auto simp: mset_insertSorted)

lemma set_jsSort: "set (jsSort cmp xs) = set xs"
  using mset_jsSort [of cmp xs] by (metis set_mset_mset)

lemma length_jsSort: "length (jsSort cmp xs) = length xs"
  using mset_jsSort [of cmp xs] by (metis size_mset)

lemma insertSorted_insort_key:
  assumes "\<And>a b. cmp a b \<le> 0 \<longleftrightarrow> key a \<le> key b"
  shows "insertSorted cmp x ys = insort_key key x ys"
  by (induction ys) (auto simp: assms)

lemma jsSort_sort_key:
  assumes "\<And>a b. cmp a b \<le> 0 \<longleftrightarrow> key a \<le> key b"
  shows "jsSort cmp xs = sort_key key xs"
  by (induction xs) (auto simp: insertSorted_insort_key [OF assms])

subsection \<open>The city index\<close>

lemma firstSeen_snoc:
  "firstSeen (xs @ [x]) = (if x \<in> set xs then firstSeen xs else firstSeen xs @ [x])"
  by (simp add: firstSeen_def)

lemma set_firstSeen: "set (firstSeen xs) = set xs"
  by (simp add: firstSeen_def)

lemma distinct_firstSeen: "distinct (firstSeen xs)"
  by (simp add: firstSeen_def)

lemma fst_increment: "map fst (increment c m) = map fst m"
  by (induction m) (auto simp: increment_def)

lemma increment_absent: "key \<notin> fst ` set m \<Longrightarrow> increment key m = m"
  by (induction m) (auto simp: increment_def)

lemma increment_append:
  "increment key (m @ [(key, a)]) = increment key m @ [(key, a\<lparr>count := count a + 1\<rparr>)]"
  by (simp add: increment_def)

lemma hasProperty_iff: "hasProperty m c \<longleftrightarrow> c \<in> fst ` set m \<or> c \<in> set objectPrototypeKeys"
  by (simp add: hasProperty_def map_of_eq_None_iff)

lemma fst_addRestaurant:
  "map fst (addRestaurant m r) =
     (if keyed (city r) \<and> city r \<notin> fst ` set m then map fst m @ [city r] else map fst m)"
  by (auto simp: addRestaurant_def fst_increment hasProperty_iff keyed_def)

lemma cityMapOf_snoc: "cityMapOf (rs @ [r]) = addRestaurant (cityMapOf rs) r"
  by (simp add: cityMapOf_def)

lemma keys_cityMapOf: "map fst (cityMapOf rs) = firstSeen (filter keyed (map city rs))"
proof (induction rs rule: rev_induct)
  case Nil
  show ?case by (simp add: cityMapOf_def firstSeen_def)
next
  case (snoc r rs)
  have "fst ` set (cityMapOf rs) = set (filter keyed (map city rs))"
    using snoc.IH set_firstSeen by (metis set_map)
  then show ?case
    using snoc.IH by (auto simp: cityMapOf_snoc fst_addRestaurant firstSeen_snoc)
qed

lemma cityOccurrences_snoc:
  "cityOccurrences (rs @ [r]) c = cityOccurrences rs c + (if city r = c then 1 else 0)"
  by (simp add: cityOccurrences_def)

lemma cityOccurrences_zero: "c \<notin> city ` set rs \<Longrightarrow> cityOccurrences rs c = 0"
  by (auto simp: cityOccurrences_def filter_empty_conv)

lemma entries_cityMapOf:
  "(k, a) \<in> set (cityMapOf rs) \<Longrightarrow> name a = k \<and> count a = cityOccurrences rs k"
proof (induction rs arbitrary: k a rule: rev_induct)
  case Nil
  then show ?case by (simp add: cityMapOf_def)
next
  case (snoc r rs)
  let ?m = "cityMapOf rs"
  have keys: "fst ` set ?m = set (filter keyed (map city rs))"
    using keys_cityMapOf [of rs] set_firstSeen by (metis set_map)
  show ?case
  proof (cases "city r = []")
    case True
    then have "addRestaurant ?m r = ?m" by (simp add: addRestaurant_def)
    moreover have "k \<noteq> []" if "(k, a) \<in> set ?m" for k a
      using that keys by (force simp: keyed_def)
    ultimately show ?thesis
      using snoc True by (auto simp: cityMapOf_snoc cityOccurrences_snoc)
  next
    case False
    show ?thesis
    proof (cases "hasProperty ?m (city r)")
      case True
      then have eq: "cityMapOf (rs @ [r]) = increment (city r) ?m"
        using False by (simp add: cityMapOf_snoc addRestaurant_def)
      from snoc.prems obtain a0 where a0: "(k, a0) \<in> set ?m"
        "a = (if k = city r then a0\<lparr>count := count a0 + 1\<rparr> else a0)"
        unfolding eq increment_def by (auto split: if_splits)
      with snoc.IH [OF a0(1)] show ?thesis
        by (auto simp: cityOccurrences_snoc)
    next
      case nohas: False
      then have fresh: "city r \<notin> fst ` set ?m" "city r \<notin> set objectPrototypeKeys"
        by (auto simp: hasProperty_iff)
      then have "city r \<notin> city ` set rs"
        using keys False by (auto simp: keyed_def)
      then have occ0: "cityOccurrences rs (city r) = 0"
        by (rule cityOccurrences_zero)
      have notin: "increment (city r) ?m = ?m"
        using fresh(1) by (rule increment_absent)
      have eq: "cityMapOf (rs @ [r]) =
          ?m @ [(city r, \<lparr>name = city r, lat = lat r, lon = lon r, state = state r, count = 1\<rparr>)]"
        using False nohas notin by (simp add: cityMapOf_snoc addRestaurant_def increment_append)
      from snoc.prems consider "(k, a) \<in> set ?m"
        | "k = city r" "a = \<lparr>name = city r, lat = lat r, lon = lon r, state = state r, count = 1\<rparr>"
        unfolding eq by auto
      then show ?thesis
      proof cases
        case 1
        then have "k \<noteq> city r" using fresh(1) by force
        with snoc.IH [OF 1] show ?thesis by (simp add: cityOccurrences_snoc)
      next
        case 2
        then show ?thesis by (simp add: cityOccurrences_snoc occ0)
      qed
    qed
  qed
qed


lemma mset_objectValues: "mset (objectValues m) = mset (map snd m)"
proof -
  have "mset (filter (\<lambda>(k, v). isArrayIndex k) m) + mset (filter (\<lambda>(k, v). \<not> isArrayIndex k) m) = mset m"
    by (induction m) auto
  then have "mset (sort_key (\<lambda>(k, v). decimalValue k) (filter (\<lambda>(k, v). isArrayIndex k) m)
              @ filter (\<lambda>(k, v). \<not> isArrayIndex k) m) = mset m"
    by simp
  then show ?thesis
    unfolding objectValues_def by (metis mset_map)
qed

lemma objectValues_plain:
  assumes "\<forall>k\<in>fst ` set m. \<not> isArrayIndex k"
  shows "objectValues m = map snd m"
proof -
  have "filter (\<lambda>(k, v). isArrayIndex k) m = []"
    using assms by (auto simp: filter_empty_conv)
  moreover have "filter (\<lambda>(k, v). \<not> isArrayIndex k) m = m"
    using assms by (auto simp: filter_id_conv)
  ultimately show ?thesis by (simp add: objectValues_def)
qed

lemma cities_sort_key:
  "cities rs = sort_key (\<lambda>a. - count a) (objectValues (cityMapOf rs))"
  unfolding cities_def by (rule jsSort_sort_key) auto

lemma sorted_cities: "sorted_wrt (\<lambda>a b. count b \<le> count a) (cities rs)"
proof -
  have "sorted (map (\<lambda>a. - count a) (cities rs))"
    unfolding cities_sort_key by (rule sorted_sort_key)
  then show ?thesis by (simp add: sorted_map)
qed

lemma mset_cities: "mset (cities rs) = mset (map snd (cityMapOf rs))"
  by (simp add: cities_def mset_jsSort mset_objectValues)

lemma distinct_keys_cityMapOf: "distinct (map fst (cityMapOf rs))"
  by (simp add: keys_cityMapOf distinct_firstSeen)


lemma names_cityMapOf2: "map (name \<circ> snd) (cityMapOf rs) = map fst (cityMapOf rs)"
proof (rule map_cong [OF refl])
  fix p assume "p \<in> set (cityMapOf rs)"
  then have "(fst p, snd p) \<in> set (cityMapOf rs)" by simp
  from entries_cityMapOf [OF this] show "(name \<circ> snd) p = fst p" by simp
qed


lemma filter_entries:
  "\<forall>p\<in>set m. name (snd p) = fst p \<and> count (snd p) = g (fst p) \<Longrightarrow>
   map name (filter (\<lambda>a. count a = n) (map snd m)) = filter (\<lambda>k. g k = n) (map fst m)"
  by (induction m) simp_all

lemma cityMapOf_ordinary:
  assumes "list_all ordinaryCity rs"
  shows "map fst (cityMapOf rs) = cityNames rs" and "objectValues (cityMapOf rs) = map snd (cityMapOf rs)"
proof -
  have "filter keyed (map city rs) = filter (\<lambda>c. c \<noteq> []) (map city rs)"
    using assms by (intro filter_cong) (auto simp: keyed_def ordinaryCity_def list_all_iff)
  then show keys: "map fst (cityMapOf rs) = cityNames rs"
    by (simp add: keys_cityMapOf cityNames_def)
  have "\<forall>k\<in>fst ` set (cityMapOf rs). \<not> isArrayIndex k"
  proof
    fix k assume "k \<in> fst ` set (cityMapOf rs)"
    then have "k \<in> set (cityNames rs)" using keys by (metis set_map)
    then show "\<not> isArrayIndex k"
      using assms by (auto simp: cityNames_def set_firstSeen ordinaryCity_def list_all_iff)
  qed
  then show "objectValues (cityMapOf rs) = map snd (cityMapOf rs)"
    by (rule objectValues_plain)
qed

text \<open>
  Claim C3, as the code has it. For every list of restaurants whose city values are
  ordinary property names, the city index has exactly one aggregate for each distinct
  non-empty city value, its count is the number of restaurants of that city, the index is
  sorted by descending count, and aggregates of equal count keep the order in which their
  cities first appear in the list (no comparison of names is made).
\<close>

theorem cities_grouped_sorted_stable:
  assumes "list_all ordinaryCity rs"
  shows "distinct (map name (cities rs))
    \<and> set (map name (cities rs)) = {c \<in> city ` set rs. c \<noteq> []}
    \<and> (\<forall>a\<in>set (cities rs). count a = cityOccurrences rs (name a))
    \<and> sorted_wrt (\<lambda>a b. count b \<le> count a) (cities rs)
    \<and> (\<forall>n. map name (filter (\<lambda>a. count a = n) (cities rs))
            = filter (\<lambda>c. cityOccurrences rs c = n) (cityNames rs))"
proof -
  let ?m = "cityMapOf rs"
  note ord = cityMapOf_ordinary [OF assms]
  have names: "map name (map snd ?m) = cityNames rs"
    using ord(1) by (simp add: names_cityMapOf2)
  have "mset (map name (cities rs)) = mset (map name (map snd ?m))"
    by (simp only: mset_map mset_cities)
  then have ms: "mset (map name (cities rs)) = mset (cityNames rs)"
    by (simp only: names)
  have "distinct (cityNames rs)"
    unfolding cityNames_def by (rule distinct_firstSeen)
  then have d: "distinct (map name (cities rs))"
    using mset_eq_imp_distinct_iff [OF ms] by blast
  have s: "set (map name (cities rs)) = set (cityNames rs)"
    using ms by (rule mset_eq_setD)
  have s': "set (cityNames rs) = {c \<in> city ` set rs. c \<noteq> []}"
    by (auto simp: cityNames_def set_firstSeen)
  have c: "\<forall>a\<in>set (cities rs). count a = cityOccurrences rs (name a)"
  proof
    fix a assume "a \<in> set (cities rs)"
    moreover have "set (cities rs) = set (map snd ?m)"
      using mset_cities [of rs] by (rule mset_eq_setD)
    ultimately have "a \<in> snd ` set ?m" by simp
    then obtain k where "(k, a) \<in> set ?m" by force
    then show "count a = cityOccurrences rs (name a)"
      using entries_cityMapOf by blast
  qed
  have st: "map name (filter (\<lambda>a. count a = n) (cities rs))
            = filter (\<lambda>c. cityOccurrences rs c = n) (cityNames rs)" for n
  proof -
    have "filter (\<lambda>a. - count a = - n) (cities rs) = filter (\<lambda>a. - count a = - n) (map snd ?m)"
      unfolding cities_sort_key ord(2) by (rule sort_key_stable)
    then have "filter (\<lambda>a. count a = n) (cities rs) = filter (\<lambda>a. count a = n) (map snd ?m)"
      by simp
    moreover have "map name (filter (\<lambda>a. count a = n) (map snd ?m))
        = filter (\<lambda>k. cityOccurrences rs k = n) (map fst ?m)"
      by (rule filter_entries) (auto dest: entries_cityMapOf)
    ultimately show ?thesis using ord(1) by simp
  qed
  have s'': "set (map name (cities rs)) = {c \<in> city ` set rs. c \<noteq> []}"
    using s s' by (rule trans)
  have st': "\<forall>n. map name (filter (\<lambda>a. count a = n) (cities rs))
            = filter (\<lambda>c. cityOccurrences rs c = n) (cityNames rs)"
    using st by (rule allI)
  show ?thesis
    using d s'' c sorted_cities [of rs] st' by (intro conjI)
qed

theorem cities_grouped_sorted_stable_witness:
  "list_all ordinaryCity
     [sampleRestaurant ''A'' ''Boston'' ''amex'', sampleRestaurant ''B'' ''Austin'' ''chase'',
      sampleRestaurant ''C'' ''Austin'' ''amex'']
   \<and> distinct (map name (cities
     [sampleRestaurant ''A'' ''Boston'' ''amex'', sampleRestaurant ''B'' ''Austin'' ''chase'',
      sampleRestaurant ''C'' ''Austin'' ''amex'']))
   \<and> sorted_wrt (\<lambda>a b. count b \<le> count a) (cities
     [sampleRestaurant ''A'' ''Boston'' ''amex'', sampleRestaurant ''B'' ''Austin'' ''chase'',
      sampleRestaurant ''C'' ''Austin'' ''amex''])"
proof -
  have h: "list_all ordinaryCity
     [sampleRestaurant ''A'' ''Boston'' ''amex'', sampleRestaurant ''B'' ''Austin'' ''chase'',
      sampleRestaurant ''C'' ''Austin'' ''amex'']"
    by code_simp
  from cities_grouped_sorted_stable [OF h] h show ?thesis by blast
qed

text \<open>
  The claim as stated fails: two cities with one restaurant each are listed in the order
  of their appearance, Boston before Austin, not by name.
\<close>

theorem cities_ties_by_name_counterexample:
  "\<not> sorted_wrt countThenName
        (cities [sampleRestaurant ''A'' ''Boston'' ''amex'',
                 sampleRestaurant ''B'' ''Austin'' ''chase''])"
  by code_simp

subsection \<open>The city search\<close>

lemma startsWith_prefix: "startsWith s q \<longleftrightarrow> prefix q s"
  unfolding startsWith_def prefix_def
  by (metis append_eq_conv_conj append_take_drop_id)

lemma includes_str_sublist: "includes_str s q \<longleftrightarrow> sublist q s"
  by (induction s) (auto simp: startsWith_prefix sublist_Cons_right)

lemma cityCompare_rankKey: "cityCompare lc q a b \<le> 0 \<longleftrightarrow> rankKey lc q a \<le> rankKey lc q b"
  by (auto simp: cityCompare_def rankKey_def matchTier_def startsWith_prefix Let_def)

lemma rankKey_le: "rankKey lc q a \<le> rankKey lc q b \<longleftrightarrow> rankedBefore lc q a b"
  by (auto simp: rankKey_def rankedBefore_def)

lemma rankedMatches_sort_key:
  "rankedMatches lc cs q = sort_key (rankKey lc q) (matches lc cs q)"
  unfolding rankedMatches_def by (rule jsSort_sort_key) (rule cityCompare_rankKey)

lemma sorted_rankedMatches: "sorted_wrt (rankedBefore lc q) (rankedMatches lc cs q)"
proof -
  have "sorted (map (rankKey lc q) (rankedMatches lc cs q))"
    unfolding rankedMatches_sort_key by (rule sorted_sort_key)
  then show ?thesis by (simp add: sorted_map rankKey_le)
qed

lemma mset_rankedMatches:
  "mset (rankedMatches lc cs q) = filter_mset (\<lambda>c. sublist q (lc (name c))) (mset cs)"
  by (simp add: rankedMatches_def mset_jsSort matches_def includes_str_sublist)

lemma filteredCities_blank: "tr q = [] \<Longrightarrow> filteredCities lc tr cs q = take 15 cs"
  by (simp add: filteredCities_def)

lemma filteredCities_query:
  "tr q \<noteq> [] \<Longrightarrow> filteredCities lc tr cs q = take 20 (rankedMatches lc cs (lc q))"
  by (simp add: filteredCities_def)

lemma set_rankedMatches:
  "set (rankedMatches lc cs q) = {c \<in> set cs. sublist q (lc (name c))}"
  by (simp add: rankedMatches_def set_jsSort matches_def includes_str_sublist)

lemma hd_rankedMatches_exact:
  assumes "c \<in> set cs" "lc (name c) = q"
  shows "rankedMatches lc cs q \<noteq> [] \<and> lc (name (hd (rankedMatches lc cs q))) = q"
proof -
  have cin: "c \<in> set (rankedMatches lc cs q)"
    using assms by (simp add: set_rankedMatches)
  then obtain x xs where eq: "rankedMatches lc cs q = x # xs"
    by (cases "rankedMatches lc cs q") auto
  have "sorted_wrt (rankedBefore lc q) (x # xs)"
    using sorted_rankedMatches [of lc q cs] eq by simp
  then have "x = c \<or> rankedBefore lc q x c"
    using cin eq by auto
  moreover have "matchTier lc q c = 0"
    using assms(2) by (simp add: matchTier_def)
  ultimately have "matchTier lc q x = 0"
    by (auto simp: rankedBefore_def)
  then have "lc (name x) = q"
    by (simp add: matchTier_def split: if_splits)
  then show ?thesis using eq by simp
qed

lemma set_filteredCities: "set (filteredCities lc tr cs q) \<subseteq> set cs"
proof (cases "tr q = []")
  case True
  then show ?thesis by (auto simp: filteredCities_blank dest: in_set_takeD)
next
  case False
  have "set (take 20 (rankedMatches lc cs (lc q))) \<subseteq> set (rankedMatches lc cs (lc q))"
    by (rule set_take_subset)
  then show ?thesis using False by (auto simp: filteredCities_query set_rankedMatches)
qed

lemma asciiTrim_empty_iff: "asciiTrim s = [] \<longleftrightarrow> list_all asciiWhiteSpace s"
proof -
  let ?d = "dropWhile asciiWhiteSpace s"
  have "(\<forall>x\<in>set ?d. asciiWhiteSpace x) \<longleftrightarrow> ?d = []"
  proof
    assume all: "\<forall>x\<in>set ?d. asciiWhiteSpace x"
    show "?d = []"
    proof (rule ccontr)
      assume ne: "?d \<noteq> []"
      then have "\<not> asciiWhiteSpace (hd ?d)" by (rule hd_dropWhile)
      moreover have "hd ?d \<in> set ?d" using ne by simp
      ultimately show False using all by blast
    qed
  next
    assume e: "?d = []"
    show "\<forall>x\<in>set ?d. asciiWhiteSpace x" unfolding e by simp
  qed
  then show ?thesis
    by (simp add: asciiTrim_def dropWhile_eq_Nil_conv list_all_iff)
qed

text \<open>
  Claim C4, as the code has it. Whatever the built-ins \<open>toLowerCase\<close> and \<open>trim\<close>
  compute: for every city index and every query that is not empty after trimming, the
  candidates are exactly the cities whose lower-cased name contains the lower-cased query
  (as typed: the query is not trimmed) as a substring; they are ranked with the names
  equal to the query first, then the names it is a prefix of, then the others, each tier
  by descending count; the result is the first 20 of them; and when the name of some city
  equals the query without regard to case, the first result is a city of the index whose
  name equals the query without regard to case.
\<close>

theorem search_candidates_ranked:
  assumes "trim q \<noteq> []"
  shows "filteredCities toLowerCase trim cs q = take 20 (rankedMatches toLowerCase cs (toLowerCase q))
    \<and> mset (rankedMatches toLowerCase cs (toLowerCase q))
        = filter_mset (\<lambda>c. sublist (toLowerCase q) (toLowerCase (name c))) (mset cs)
    \<and> sorted_wrt (rankedBefore toLowerCase (toLowerCase q))
        (rankedMatches toLowerCase cs (toLowerCase q))
    \<and> (\<forall>c\<in>set cs. toLowerCase (name c) = toLowerCase q \<longrightarrow>
          filteredCities toLowerCase trim cs q \<noteq> []
          \<and> hd (filteredCities toLowerCase trim cs q) \<in> set cs
          \<and> toLowerCase (name (hd (filteredCities toLowerCase trim cs q))) = toLowerCase q)"
proof -
  let ?r = "rankedMatches toLowerCase cs (toLowerCase q)"
  let ?f = "filteredCities toLowerCase trim cs q"
  have eq: "?f = take 20 ?r"
    using assms by (rule filteredCities_query)
  have first: "?f \<noteq> [] \<and> hd ?f \<in> set cs \<and> toLowerCase (name (hd ?f)) = toLowerCase q"
    if "c \<in> set cs" "toLowerCase (name c) = toLowerCase q" for c
  proof -
    from hd_rankedMatches_exact [where lc = toLowerCase and q = "toLowerCase q", OF that]
    have ne: "?r \<noteq> []" and ex: "toLowerCase (name (hd ?r)) = toLowerCase q" by simp_all
    have ne': "?f \<noteq> []" using ne by (simp add: eq)
    have hd: "hd ?f = hd ?r" using ne by (simp add: eq hd_take)
    have "hd ?f \<in> set ?f" using ne' by simp
    then have "hd ?f \<in> set cs" using set_filteredCities by blast
    then show ?thesis using ne' hd ex by simp
  qed
  show ?thesis
    using eq mset_rankedMatches [of toLowerCase cs "toLowerCase q"]
      sorted_rankedMatches [of toLowerCase "toLowerCase q" cs] first
    by blast
qed

theorem search_candidates_ranked_witness:
  "asciiTrim ''new york'' \<noteq> []
   \<and> filteredCities asciiToLowerCase asciiTrim
        [sampleCity ''West New York'' 5, sampleCity ''New York'' 2] ''new york'' \<noteq> []
   \<and> asciiToLowerCase (name (hd (filteredCities asciiToLowerCase asciiTrim
        [sampleCity ''West New York'' 5, sampleCity ''New York'' 2] ''new york'')))
       = asciiToLowerCase ''new york''"
proof -
  have h: "asciiTrim ''new york'' \<noteq> []" by code_simp
  have c: "sampleCity ''New York'' 2 \<in> set [sampleCity ''West New York'' 5, sampleCity ''New York'' 2]"
    by simp
  have e: "asciiToLowerCase (name (sampleCity ''New York'' 2)) = asciiToLowerCase ''new york''"
    by code_simp
  from search_candidates_ranked
    [where trim = asciiTrim and toLowerCase = asciiToLowerCase and q = "''new york''"
       and cs = "[sampleCity ''West New York'' 5, sampleCity ''New York'' 2]", OF h] c e h
  show ?thesis by blast
qed

text \<open>
  The claim as stated fails in its last part: the index built from two restaurants in
  NEW YORK and one in New York holds "New York", and the search for "new york" ranks
  NEW YORK first. The strings are ASCII, where the built-ins are the ASCII functions.
\<close>

theorem search_first_exact_counterexample:
  "''New York'' \<in> set (map name (cities
      [sampleRestaurant ''A'' ''NEW YORK'' ''amex'', sampleRestaurant ''B'' ''New York'' ''amex'',
       sampleRestaurant ''C'' ''NEW YORK'' ''chase'']))
   \<and> asciiTrim ''new york'' \<noteq> []
   \<and> name (hd (filteredCities asciiToLowerCase asciiTrim (cities
      [sampleRestaurant ''A'' ''NEW YORK'' ''amex'', sampleRestaurant ''B'' ''New York'' ''amex'',
       sampleRestaurant ''C'' ''NEW YORK'' ''chase'']) ''new york'')) = ''NEW YORK''"
  by code_simp

text \<open>
  Claim C5. Whatever the built-ins compute: a query that is empty after trimming (empty or
  white space only) returns the first 15 cities of the city index, which is sorted by
  descending count, so that no city left out has a higher count than a city returned; any
  other query returns the first 20 ranked candidates; the length of the result is the
  smaller of the limit and the number of cities (of candidates), so it never exceeds 15
  and 20 respectively.
\<close>

theorem search_limits:
  "(trim q = [] \<longrightarrow>
      filteredCities toLowerCase trim (cities rs) q = take 15 (cities rs)
      \<and> sorted_wrt (\<lambda>a b. count b \<le> count a) (filteredCities toLowerCase trim (cities rs) q)
      \<and> (\<forall>a\<in>set (filteredCities toLowerCase trim (cities rs) q).
           \<forall>b\<in>set (drop 15 (cities rs)). count b \<le> count a)
      \<and> length (filteredCities toLowerCase trim (cities rs) q) = min 15 (length (cities rs)))
   \<and> (trim q \<noteq> [] \<longrightarrow>
      filteredCities toLowerCase trim cs q = take 20 (rankedMatches toLowerCase cs (toLowerCase q))
      \<and> length (filteredCities toLowerCase trim cs q)
          = min 20 (length (matches toLowerCase cs (toLowerCase q))))
   \<and> length (filteredCities toLowerCase trim cs q) \<le> (if trim q = [] then 15 else 20)"
proof -
  have srt: "sorted_wrt (\<lambda>a b. count b \<le> count a) (take 15 (cities rs) @ drop 15 (cities rs))"
    using sorted_cities [of rs] by simp
  then have "sorted_wrt (\<lambda>a b. count b \<le> count a) (take 15 (cities rs))"
    and "\<forall>a\<in>set (take 15 (cities rs)). \<forall>b\<in>set (drop 15 (cities rs)). count b \<le> count a"
    unfolding sorted_wrt_append by simp_all
  then have blank: "trim q = [] \<longrightarrow>
      filteredCities toLowerCase trim (cities rs) q = take 15 (cities rs)
      \<and> sorted_wrt (\<lambda>a b. count b \<le> count a) (filteredCities toLowerCase trim (cities rs) q)
      \<and> (\<forall>a\<in>set (filteredCities toLowerCase trim (cities rs) q).
           \<forall>b\<in>set (drop 15 (cities rs)). count b \<le> count a)
      \<and> length (filteredCities toLowerCase trim (cities rs) q) = min 15 (length (cities rs))"
    by (simp add: filteredCities_blank min.commute)
  have query: "trim q \<noteq> [] \<longrightarrow>
      filteredCities toLowerCase trim cs q = take 20 (rankedMatches toLowerCase cs (toLowerCase q))
      \<and> length (filteredCities toLowerCase trim cs q)
          = min 20 (length (matches toLowerCase cs (toLowerCase q)))"
    by (simp add: filteredCities_query rankedMatches_def length_jsSort min.commute)
  have bound: "length (filteredCities toLowerCase trim cs q) \<le> (if trim q = [] then 15 else 20)"
    by (simp add: filteredCities_def)
  show ?thesis using blank query bound by blast
qed

text \<open>
  An index of 17 cities and a blank query: 15 cities are returned. An index of 22 cities
  whose names all contain the query: 20 are returned.
\<close>

theorem search_limits_witness:
  "asciiTrim ''  '' = []
   \<and> length (cities (sampleRestaurants 17)) = 17
   \<and> length (filteredCities asciiToLowerCase asciiTrim (cities (sampleRestaurants 17)) ''  '') = 15
   \<and> asciiTrim ''a'' \<noteq> []
   \<and> length (matches asciiToLowerCase (sampleIndex 22) (asciiToLowerCase ''a'')) = 22
   \<and> length (filteredCities asciiToLowerCase asciiTrim (sampleIndex 22) ''a'') = 20"
proof -
  have b: "asciiTrim ''  '' = []" by code_simp
  have n: "asciiTrim ''a'' \<noteq> []" by code_simp
  have l17: "length (cities (sampleRestaurants 17)) = 17" by code_simp
  have l22: "length (matches asciiToLowerCase (sampleIndex 22) (asciiToLowerCase ''a'')) = 22"
    by code_simp
  from search_limits
    [where trim = asciiTrim and toLowerCase = asciiToLowerCase and q = "''  ''"
       and rs = "sampleRestaurants 17"] b
  have "length (filteredCities asciiToLowerCase asciiTrim (cities (sampleRestaurants 17)) ''  '')
      = min 15 (length (cities (sampleRestaurants 17)))"
    by blast
  then have "length (filteredCities asciiToLowerCase asciiTrim (cities (sampleRestaurants 17)) ''  '')
      = min 15 17"
    by (simp only: l17)
  then have f15: "length (filteredCities asciiToLowerCase asciiTrim (cities (sampleRestaurants 17)) ''  '') = 15"
    by simp
  from search_limits
    [where trim = asciiTrim and toLowerCase = asciiToLowerCase and q = "''a''"
       and cs = "sampleIndex 22"] n
  have "length (filteredCities asciiToLowerCase asciiTrim (sampleIndex 22) ''a'')
      = min 20 (length (matches asciiToLowerCase (sampleIndex 22) (asciiToLowerCase ''a'')))"
    by blast
  then have "length (filteredCities asciiToLowerCase asciiTrim (sampleIndex 22) ''a'') = min 20 22"
    by (simp only: l22)
  then have f20: "length (filteredCities asciiToLowerCase asciiTrim (sampleIndex 22) ''a'') = 20"
    by simp
  show ?thesis using b n l17 l22 f15 f20 by blast
qed

text \<open>
  Claim C6. Whatever the built-ins compute, the search is defined for every index and
  every query: no step of it can fail, and it returns cities of the index only, never
  more than the index holds. The limit is not an argument of the search: it is 15 for a
  blank query and 20 otherwise, so no limit empties a result. The result is empty exactly
  when nothing matches: for a query that is not blank, when no city name contains it
  without regard to case; for a blank query, which selects every city, when the index is
  empty.
\<close>

theorem search_total_empty:
  "set (filteredCities toLowerCase trim cs q) \<subseteq> set cs
   \<and> length (filteredCities toLowerCase trim cs q) \<le> length cs
   \<and> (filteredCities toLowerCase trim cs q = [] \<longleftrightarrow>
        (if trim q = [] then cs = []
         else \<forall>c\<in>set cs. \<not> sublist (toLowerCase q) (toLowerCase (name c))))"
proof -
  let ?f = "filteredCities toLowerCase trim cs q"
  have "?f = [] \<longleftrightarrow> cs = []" if "trim q = []"
    using that by (simp add: filteredCities_blank)
  moreover have "?f = [] \<longleftrightarrow>
      (\<forall>c\<in>set cs. \<not> sublist (toLowerCase q) (toLowerCase (name c)))" if "trim q \<noteq> []"
  proof -
    have "?f = [] \<longleftrightarrow> set (rankedMatches toLowerCase cs (toLowerCase q)) = {}"
      using that by (simp add: filteredCities_query)
    then show ?thesis by (auto simp: set_rankedMatches)
  qed
  moreover have "length ?f \<le> length cs"
  proof (cases "trim q = []")
    case True
    then show ?thesis by (simp add: filteredCities_blank)
  next
    case False
    have "length (rankedMatches toLowerCase cs (toLowerCase q)) \<le> length cs"
      by (simp add: rankedMatches_def length_jsSort matches_def)
    then show ?thesis using False by (simp add: filteredCities_query)
  qed
  ultimately show ?thesis using set_filteredCities [of toLowerCase trim cs q] by simp
qed

theorem search_total_empty_witness:
  "asciiTrim ''zz'' \<noteq> []
   \<and> filteredCities asciiToLowerCase asciiTrim
        [sampleCity ''Boston'' 3, sampleCity ''Austin'' 1] ''zz'' = []"
proof -
  have n: "asciiTrim ''zz'' \<noteq> []" by code_simp
  have m: "\<not> includes_str (asciiToLowerCase ''Boston'') (asciiToLowerCase ''zz'')"
          "\<not> includes_str (asciiToLowerCase ''Austin'') (asciiToLowerCase ''zz'')" by code_simp+
  from search_total_empty
    [where trim = asciiTrim and toLowerCase = asciiToLowerCase and q = "''zz''"
       and cs = "[sampleCity ''Boston'' 3, sampleCity ''Austin'' 1]"] n m
  show ?thesis by (simp add: sampleCity_def includes_str_sublist)
qed

subsection \<open>The program toggles\<close>

text \<open>
  Each of the two updaters negates the flag of its own program and leaves the other entry
  of the filter state as it is.
\<close>

lemma toggles_flip:
  "filterEntry (toggleAmex f) p = (if p = ''amex'' then Some (\<not> amex f) else filterEntry f p)
   \<and> filterEntry (toggleChase f) p = (if p = ''chase'' then Some (\<not> chase f) else filterEntry f p)"
  by (simp add: filterEntry_def toggleAmex_def toggleChase_def)

subsection \<open>The count of the filter bar and the markers\<close>

lemma counted_markerVisible:
  "counted f r \<longleftrightarrow> markerVisible f r \<and> (program r = ''amex'' \<or> program r = ''chase'')"
  by (auto simp: counted_def markerVisible_def)

lemma restaurantCount_le_markers: "restaurantCount rs f \<le> length (markers rs f)"
proof -
  have "filter (counted f) rs = filter (\<lambda>r. markerVisible f r \<and> (program r = ''amex'' \<or> program r = ''chase'')) rs"
    by (rule filter_cong) (simp_all add: counted_markerVisible)
  then have "filter (counted f) rs = filter (\<lambda>r. program r = ''amex'' \<or> program r = ''chase'') (filtered rs f)"
    by (simp add: filtered_def conj_commute)
  then show ?thesis
    by (simp add: restaurantCount_def markers_def)
qed

lemma restaurantCount_eq_markers:
  "\<forall>r\<in>set rs. program r = ''amex'' \<or> program r = ''chase'' \<Longrightarrow>
   restaurantCount rs f = length (markers rs f)"
proof -
  assume a: "\<forall>r\<in>set rs. program r = ''amex'' \<or> program r = ''chase''"
  have "filter (counted f) rs = filter (markerVisible f) rs"
    by (rule filter_cong) (use a in \<open>auto simp: counted_markerVisible\<close>)
  then show ?thesis by (simp add: restaurantCount_def markers_def filtered_def)
qed

text \<open>
  Claim C10. The count of the filter bar and the number of markers differ on a restaurant
  whose program is neither amex nor chase: with both programs on, the restaurant gets a
  marker and is not counted.
\<close>

theorem count_misses_other_programs:
  "restaurantCount [sampleRestaurant ''V'' ''New York'' ''visa''] initialFilters = 0
   \<and> length (markers [sampleRestaurant ''V'' ''New York'' ''visa''] initialFilters) = 1"
  by (simp add: restaurantCount_def counted_def markers_def filtered_def markerVisible_def
      sampleRestaurant_def initialFilters_def)

subsection \<open>The data conversion and the load\<close>




lemma pointStore_eq:
  "pointStore cs gs =
     map jsonRecord (filter chaseKeep (map (\<lambda>row. row\<lparr>program := ''chase''\<rparr>) cs))
     @ map jsonRecord (filter gdaKeep (map (\<lambda>row. row\<lparr>program := ''amex''\<rparr>) gs))"
  by (simp add: pointStore_def restaurantsJson_def allData_def chaseData_def gdaData_def)

text \<open>
  What the store holds in a coordinate: a finite number other than zero, or \<^verbatim>\<open>null\<close>
  where the conversion read an infinite value, which passes its filter.
\<close>

lemma pointStore_coordinates:
  assumes "r \<in> set (pointStore cs gs)"
  shows "(lat r = Null \<or> (\<exists>x. x \<noteq> 0 \<and> lat r = Num x))
       \<and> (lon r = Null \<or> (\<exists>x. x \<noteq> 0 \<and> lon r = Num x))"
proof -
  have shape: "jsonNumber n = Null \<or> (\<exists>x. x \<noteq> 0 \<and> jsonNumber n = Num x)" if "truthyNum n" for n
    using that by (cases n) simp_all
  from assms obtain r0 where "r = jsonRecord r0" "truthyNum (lat r0)" "truthyNum (lon r0)"
    by (auto simp: pointStore_eq chaseKeep_def gdaKeep_def)
  then show ?thesis using shape by (simp add: jsonRecord_def)
qed

lemma infinite_coordinate_stored_as_null:
  "pointStore [] [(sampleRestaurant ''X'' ''Nowhere'' [])\<lparr>lat := PosInfinity\<rparr>]
     = [(sampleRestaurant ''X'' ''Nowhere'' ''amex'')\<lparr>lat := Null\<rparr>]"
  by (simp add: pointStore_eq gdaKeep_def jsonRecord_def sampleRestaurant_def)

lemma failed_load_empty: "loadRestaurants None = []"
  by simp




end
